theory Spec2Isabelle
  imports Main "HOL-Library.Char_ord" "HOL-Library.Word"
begin

section \<open>The crypt overlay driver (drivers/crypt/driver.go)\<close>

text \<open>
  The driver composes collaborators that live outside the file: the rclone cipher, the
  remote storage layer (\<open>fs\<close>, \<open>op\<close>), the HTTP helpers and the path helpers. Each of
  them is a parameter of the model, gathered in records of functions, so every theorem
  holds for whatever these collaborators compute. Go's \<open>(value, error)\<close> results are
  sums with the error on the left; a call that only reports an error is an
  \<open>error option\<close>.
\<close>

subsection \<open>Errors\<close>

text \<open>
  One constructor for each error the file builds with \<open>fmt.Errorf\<close>, the two sentinel
  errors of package \<open>errs\<close> it names, a nil dereference, and the errors that the
  collaborators hand back, which the driver never inspects beyond
  \<open>errs.IsObjectNotFound\<close>.
\<close>

datatype error =
    ObjectNotFound
  | NotSupport
  | Foreign string
  | ObfuscatePasswordFailed error
  | ObfuscateSaltFailed error
  | EncryptedSuffixIllegal
  | RemoteStorageNotFound error
  | CreateCipherFailed error
  | ConvertPathFailed error
  | NeedEnhancement
  | HttpRequestFailure int error
  | EncryptDataFailed error
  | NilDereference

subsection \<open>Data\<close>

type_synonym bytes = "8 word list"
type_synonym time = int

text \<open>\<open>model.Object\<close>, with the fields this file sets; a field left out of a literal
  has Go's zero value.\<close>

record object =
  ID :: string
  Path :: string
  Name :: string
  Size :: int
  Modified :: time
  IsFolder :: bool

definition zeroObject :: object where
  "zeroObject = \<lparr>ID = [], Path = [], Name = [], Size = 0, Modified = 0, IsFolder = False\<rparr>"

text \<open>The rclone cipher, through the methods the driver calls.\<close>

record cipher =
  DecryptDirName :: "string \<Rightarrow> error + string"
  DecryptFileName :: "string \<Rightarrow> error + string"
  DecryptedSize :: "int \<Rightarrow> error + int"
  EncryptDirName :: "string \<Rightarrow> string"
  EncryptFileName :: "string \<Rightarrow> string"
  EncryptedSize :: "int \<Rightarrow> int"
  EncryptData :: "bytes \<Rightarrow> error + bytes"
  DecryptDataSeek :: "(int \<Rightarrow> int \<Rightarrow> error + bytes) \<Rightarrow> int \<Rightarrow> int \<Rightarrow> error + bytes"

text \<open>The receiver: the fields of \<open>Addition\<close> that the file reads, the cipher and the
  remote storage, both nil until \<open>Init\<close> sets them.\<close>

record 'd crypt =
  Password :: string
  Salt :: string
  EncryptedSuffix :: string
  RemotePath :: string
  FileNameEnc :: string
  DirNameEnc :: string
  cipher :: "cipher option"
  remoteStorage :: "'d option"

subsection \<open>Strings\<close>

definition obfuscatedPrefix :: string where
  "obfuscatedPrefix = ''___Obfuscated___''"

definition HasPrefix :: "string \<Rightarrow> string \<Rightarrow> bool" where
  "HasPrefix s p = (take (length p) s = p)"

text \<open>\<open>strings.CutPrefix\<close>, first component: \<open>s\<close> without the prefix, or \<open>s\<close> itself.\<close>

definition CutPrefix :: "string \<Rightarrow> string \<Rightarrow> string" where
  "CutPrefix s p = (if HasPrefix s p then drop (length p) s else s)"

subsection \<open>Init\<close>

text \<open>
  \<open>obscure.Obscure\<close> draws a fresh random vector at every call, so it reads and
  advances a random source \<open>'r\<close>; it can fail. \<open>updateObfusParm\<close> returns the error,
  the new content of the string behind the pointer and the random source.
\<close>

definition updateObfusParm ::
  "('r \<Rightarrow> string \<Rightarrow> (error + string) \<times> 'r) \<Rightarrow> 'r \<Rightarrow> string \<Rightarrow> error option \<times> string \<times> 'r" where
  "updateObfusParm Obscure r str =
     (if \<not> HasPrefix str obfuscatedPrefix then
        (case Obscure r str of
           (Inl err, r') \<Rightarrow> (Some err, str, r')
         | (Inr temp, r') \<Rightarrow> (None, obfuscatedPrefix @ temp, r'))
      else (None, str, r))"

text \<open>The regular expression \<open>^[.][A-Za-z0-9-_]{2,}$\<close>: a dot, then at least two
  characters of the class, and nothing else.\<close>

definition cryptExtChar :: "char \<Rightarrow> bool" where
  "cryptExtChar c =
     ((CHR ''A'' \<le> c \<and> c \<le> CHR ''Z'') \<or> (CHR ''a'' \<le> c \<and> c \<le> CHR ''z'')
      \<or> (CHR ''0'' \<le> c \<and> c \<le> CHR ''9'') \<or> c = CHR ''-'' \<or> c = CHR ''_'')"

fun isCryptExt :: "string \<Rightarrow> bool" where
  "isCryptExt [] = False"
| "isCryptExt (c # cs) = (c = CHR ''.'' \<and> 2 \<le> length cs \<and> list_all cryptExtChar cs)"

text \<open>The collaborators of \<open>Init\<close>: \<open>obscure.Obscure\<close>, \<open>fs.GetStorage\<close> and
  \<open>rcCrypt.NewCipher\<close> on the configuration map.\<close>

record ('r, 'd) init_env =
  Obscure :: "'r \<Rightarrow> string \<Rightarrow> (error + string) \<times> 'r"
  GetStorage :: "string \<Rightarrow> error + 'd"
  NewCipher :: "(string \<times> string) list \<Rightarrow> error + cipher"

definition cipherConfig :: "'d crypt \<Rightarrow> (string \<times> string) list" where
  "cipherConfig d =
     [(''password'', CutPrefix (Password d) obfuscatedPrefix),
      (''password2'', CutPrefix (Salt d) obfuscatedPrefix),
      (''filename_encryption'', FileNameEnc d),
      (''directory_name_encryption'', DirNameEnc d),
      (''filename_encoding'', ''base32''),
      (''suffix'', EncryptedSuffix d),
      (''pass_bad_blocks'', [])]"

text \<open>
  \<open>Init\<close> returns its error, the receiver as it leaves it, the random source, and the
  receivers handed to \<open>op.MustSaveDriverStorage\<close> (which returns nothing).
\<close>

definition Init ::
  "('r, 'd) init_env \<Rightarrow> 'r \<Rightarrow> 'd crypt \<Rightarrow> error option \<times> 'd crypt \<times> 'r \<times> 'd crypt list" where
  "Init env r d =
     (case updateObfusParm (Obscure env) r (Password d) of
        (Some err, pw, r1) \<Rightarrow> (Some (ObfuscatePasswordFailed err), d\<lparr>Password := pw\<rparr>, r1, [])
      | (None, pw, r1) \<Rightarrow>
          (let d1 = d\<lparr>Password := pw\<rparr> in
           case updateObfusParm (Obscure env) r1 (Salt d1) of
             (Some err, sa, r2) \<Rightarrow> (Some (ObfuscateSaltFailed err), d1\<lparr>Salt := sa\<rparr>, r2, [])
           | (None, sa, r2) \<Rightarrow>
               (let d2 = d1\<lparr>Salt := sa\<rparr> in
                if \<not> isCryptExt (EncryptedSuffix d2) then (Some EncryptedSuffixIllegal, d2, r2, [])
                else
                  (case GetStorage env (RemotePath d2) of
                     Inl err \<Rightarrow> (Some (RemoteStorageNotFound err), d2, r2, [d2])
                   | Inr storage \<Rightarrow>
                       (let d3 = d2\<lparr>remoteStorage := Some storage\<rparr> in
                        case NewCipher env (cipherConfig d3) of
                          Inl err \<Rightarrow> (Some (CreateCipherFailed err), d3, r2, [d2])
                        | Inr c \<Rightarrow> (None, d3\<lparr>cipher := Some c\<rparr>, r2, [d2]))))))"

subsection \<open>Remote objects and collaborators\<close>

text \<open>\<open>model.Obj\<close> as the remote reports it: the results of the interface's methods.\<close>

record robj =
  GetID :: string
  GetPath :: string
  GetName :: string
  GetSize :: int
  ModTime :: time
  IsDir :: bool

text \<open>\<open>model.FileStreamer\<close>: an object with its content and the upload flags.\<close>

record file_streamer = robj +
  GetReadCloser :: bytes
  NeedStore :: bool
  GetOld :: "robj option"

text \<open>What \<open>List\<close> returns: a \<open>model.Object\<close> or a \<open>model.ObjThumb\<close>.\<close>

datatype obj = Object object | ObjThumb object string

record file_stream =
  Obj :: object
  ReadCloser :: bytes
  Mimetype :: string
  WebPutAsTask :: bool
  Old :: "robj option"

text \<open>
  \<open>model.Link\<close>. A range reader maps \<open>http_range.Range{Start, Length}\<close> to the bytes
  it yields. A seekable reader is read through \<open>Seek(offset, io.SeekStart)\<close> only: it
  maps the offset to the bytes the handle yields from there, or to the error of the seek.
  The closers, which no result depends on, are left out.
\<close>

record link =
  URL :: string
  Header :: "(string \<times> string list) list"
  RangeReader :: "(int \<times> int \<Rightarrow> error + bytes) option"
  ReadSeekCloser :: "(int \<Rightarrow> error + bytes) option"
  Expiration :: "int option"

record response =
  StatusCode :: int
  Body :: bytes

text \<open>
  The collaborators of the file operations, with the state \<open>'s\<close> of the remote storage
  threaded through every call that reaches it, and \<open>'q\<close> the arguments of \<open>Link\<close>
  (they carry the HTTP request).
\<close>

record ('s, 'q) env =
  PathEqual :: "string \<Rightarrow> string \<Rightarrow> bool"
  guessPath :: "string \<Rightarrow> bool \<times> bool"
  getPathForRemote :: "string \<Rightarrow> bool \<Rightarrow> string"
  getActualPathForRemote :: "string \<Rightarrow> bool \<Rightarrow> error + string"
  fsGet :: "'s \<Rightarrow> string \<Rightarrow> (error + robj) \<times> 's"
  fsList :: "'s \<Rightarrow> string \<Rightarrow> (error + robj list) \<times> 's"
  IsObjectNotFound :: "error \<Rightarrow> bool"
  GetThumb :: "robj \<Rightarrow> string \<times> bool"
  opLink :: "'s \<Rightarrow> string \<Rightarrow> 'q \<Rightarrow> (error + link \<times> robj) \<times> 's"
  opPut :: "'s \<Rightarrow> string \<Rightarrow> file_stream \<Rightarrow> error option \<times> 's"
  RequestRangedHttp :: "'q \<Rightarrow> string \<Rightarrow> (string \<times> string list) list \<Rightarrow> int \<Rightarrow> int
                        \<Rightarrow> response option \<times> error option"
  GetRangedHttpReader :: "bytes \<Rightarrow> int \<Rightarrow> int \<Rightarrow> error + bytes"

subsection \<open>List\<close>

text \<open>The loop over the remote entries, appending to \<open>result\<close>; \<open>continue\<close> is the
  recursive call with \<open>result\<close> as it is.\<close>

fun listLoop :: "cipher \<Rightarrow> (robj \<Rightarrow> string \<times> bool) \<Rightarrow> robj list \<Rightarrow> obj list \<Rightarrow> obj list" where
  "listLoop c gt [] result = result"
| "listLoop c gt (ob # objs) result =
     (if IsDir ob then
        (case DecryptDirName c (GetName ob) of
           Inl err \<Rightarrow> listLoop c gt objs result
         | Inr name \<Rightarrow>
             listLoop c gt objs
               (result @ [Object (zeroObject\<lparr>Name := name, Size := 0, Modified := ModTime ob,
                                            IsFolder := IsDir ob\<rparr>)]))
      else
        (case gt ob of (thumb, ok) \<Rightarrow>
           (case DecryptedSize c (GetSize ob) of
              Inl err \<Rightarrow> listLoop c gt objs result
            | Inr size' \<Rightarrow>
                (case DecryptFileName c (GetName ob) of
                   Inl err \<Rightarrow> listLoop c gt objs result
                 | Inr name \<Rightarrow>
                     (let objRes = zeroObject\<lparr>Name := name, Size := size', Modified := ModTime ob,
                                               IsFolder := IsDir ob\<rparr>
                      in if \<not> ok then listLoop c gt objs (result @ [Object objRes])
                         else listLoop c gt objs (result @ [ObjThumb objRes thumb]))))))"

definition List ::
  "('s, 'q) env \<Rightarrow> cipher \<Rightarrow> 's \<Rightarrow> robj \<Rightarrow> (error + obj list) \<times> 's" where
  "List e c s dir =
     (case fsList e s (getPathForRemote e (GetPath dir) True) of
        (Inl err, s') \<Rightarrow> (Inl err, s')
      | (Inr objs, s') \<Rightarrow> (Inr (listLoop c (GetThumb e) objs []), s'))"

subsection \<open>Get\<close>

text \<open>The second half of \<open>Get\<close>: the logical object built from the remote one, with
  the raw size or name where the cipher rejects it.\<close>

definition decryptRemoteObj :: "cipher \<Rightarrow> string \<Rightarrow> robj \<Rightarrow> object" where
  "decryptRemoteObj c path remoteObj =
     (let (size', name) =
            (if \<not> IsDir remoteObj then
               ((case DecryptedSize c (GetSize remoteObj) of
                   Inl err \<Rightarrow> GetSize remoteObj | Inr size' \<Rightarrow> size'),
                (case DecryptFileName c (GetName remoteObj) of
                   Inl err \<Rightarrow> GetName remoteObj | Inr name \<Rightarrow> name))
             else
               (0,
                (case DecryptDirName c (GetName remoteObj) of
                   Inl err \<Rightarrow> GetName remoteObj | Inr name \<Rightarrow> name)))
      in zeroObject\<lparr>Path := path, Name := name, Size := size', Modified := ModTime remoteObj,
                    IsFolder := IsDir remoteObj\<rparr>)"

text \<open>\<open>Get\<close> returns its result, the state of the remote, and the remote paths it
  handed to \<open>fs.Get\<close>, in order.\<close>

definition Get ::
  "('s, 'q) env \<Rightarrow> cipher \<Rightarrow> 's \<Rightarrow> string \<Rightarrow> (error + object) \<times> 's \<times> string list" where
  "Get e c s path =
     (if PathEqual e path ''/'' then
        (Inr (zeroObject\<lparr>Name := ''Root'', IsFolder := True, Path := ''/''\<rparr>), s, [])
      else
        (case guessPath e path of (firstTryIsFolder, secondTry) \<Rightarrow>
           (let remoteFullPath = getPathForRemote e path firstTryIsFolder in
            case fsGet e s remoteFullPath of
              (Inr remoteObj, s1) \<Rightarrow> (Inr (decryptRemoteObj c path remoteObj), s1, [remoteFullPath])
            | (Inl err, s1) \<Rightarrow>
                if IsObjectNotFound e err \<and> secondTry then
                  (let remoteFullPath2 = getPathForRemote e path (\<not> firstTryIsFolder) in
                   case fsGet e s1 remoteFullPath2 of
                     (Inl err2, s2) \<Rightarrow> (Inl err2, s2, [remoteFullPath, remoteFullPath2])
                   | (Inr remoteObj, s2) \<Rightarrow>
                       (Inr (decryptRemoteObj c path remoteObj), s2,
                        [remoteFullPath, remoteFullPath2]))
                else (Inl err, s1, [remoteFullPath]))))"

subsection \<open>Link\<close>

text \<open>Go's \<open>int64\<close> addition wraps around in two's complement.\<close>

definition int64 :: "int \<Rightarrow> int" where
  "int64 x = (x + 2 ^ 63) mod 2 ^ 64 - 2 ^ 63"

text \<open>The first statement of the closure \<open>rangeReaderFunc\<close>: a range that reaches the
  remote file's size is read to the end.\<close>

definition clampLength :: "int \<Rightarrow> int \<Rightarrow> int \<Rightarrow> int" where
  "clampLength remoteFileSize underlyingOffset underlyingLength =
     (if underlyingLength \<ge> 0 \<and> int64 (underlyingOffset + underlyingLength) \<ge> remoteFileSize
      then - 1 else underlyingLength)"

text \<open>
  The closure \<open>rangeReaderFunc\<close> of \<open>Link\<close>, over the remote link, the remote file's
  size and the arguments. A reader is the bytes it yields.
\<close>

definition rangeReaderFunc ::
  "('s, 'q) env \<Rightarrow> link \<Rightarrow> int \<Rightarrow> 'q \<Rightarrow> int \<Rightarrow> int \<Rightarrow> error + bytes" where
  "rangeReaderFunc e remoteLink remoteFileSize args underlyingOffset underlyingLength =
     (let length' = clampLength remoteFileSize underlyingOffset underlyingLength
      in case RangeReader remoteLink of
           Some rangeReader \<Rightarrow>
             (case rangeReader (underlyingOffset, length') of
                Inl err \<Rightarrow> Inl err
              | Inr remoteReader \<Rightarrow> Inr remoteReader)
         | None \<Rightarrow>
             (case ReadSeekCloser remoteLink of
                Some seek \<Rightarrow>
                  (case seek underlyingOffset of
                     Inl err \<Rightarrow> Inl err
                   | Inr rest \<Rightarrow> Inr rest)
              | None \<Rightarrow>
                  if length (URL remoteLink) > 0 then
                    (case RequestRangedHttp e args (URL remoteLink) (Header remoteLink)
                            underlyingOffset length' of
                       (None, _) \<Rightarrow> Inl NilDereference
                     | (Some resp, Some err) \<Rightarrow> Inl (HttpRequestFailure (StatusCode resp) err)
                     | (Some resp, None) \<Rightarrow>
                         if underlyingOffset = 0 \<and> length' = - 1 \<or> StatusCode resp = 206
                         then Inr (Body resp)
                         else if StatusCode resp = 200 then
                           (case GetRangedHttpReader e (Body resp) underlyingOffset length' of
                              Inl err \<Rightarrow> Inl err
                            | Inr readCloser \<Rightarrow> Inr readCloser)
                         else Inr (Body resp))
                  else Inl NotSupport))"

definition Link ::
  "('s, 'q) env \<Rightarrow> cipher \<Rightarrow> 's \<Rightarrow> robj \<Rightarrow> 'q \<Rightarrow> (error + link) \<times> 's" where
  "Link e c s file args =
     (case getActualPathForRemote e (GetPath file) False of
        Inl err \<Rightarrow> (Inl (ConvertPathFailed err), s)
      | Inr dstDirActualPath \<Rightarrow>
          (case opLink e s dstDirActualPath args of
             (Inl err, s') \<Rightarrow> (Inl err, s')
           | (Inr (remoteLink, remoteFile), s') \<Rightarrow>
               if RangeReader remoteLink = None \<and> ReadSeekCloser remoteLink = None
                  \<and> length (URL remoteLink) = 0
               then (Inl NeedEnhancement, s')
               else
                 (let remoteFileSize = GetSize remoteFile;
                      resultRangeReader =
                        (\<lambda>(start, len).
                           case DecryptDataSeek c (rangeReaderFunc e remoteLink remoteFileSize args)
                                  start len of
                             Inl err \<Rightarrow> Inl err
                           | Inr readSeeker \<Rightarrow> Inr readSeeker)
                  in (Inr \<lparr>URL = [], Header = Header remoteLink,
                           RangeReader = Some resultRangeReader, ReadSeekCloser = None,
                           Expiration = Expiration remoteLink\<rparr>, s'))))"

text \<open>
  Modelled from the spec: \<open>net.GetRangedHttpReader\<close>, which is not part of the file. The
  specification has it synthesize the requested range "by reading and discarding bytes up
  to offset and truncating at length", a length of \<open>-1\<close> meaning "to end-of-stream".
\<close>

definition spec_GetRangedHttpReader :: "bytes \<Rightarrow> int \<Rightarrow> int \<Rightarrow> error + bytes" where
  "spec_GetRangedHttpReader body offset len =
     Inr (if len = - 1 then drop (nat offset) body
          else take (nat len) (drop (nat offset) body))"

subsection \<open>Put\<close>

text \<open>The stream \<open>streamOut\<close> that \<open>Put\<close> builds from the input stream and the
  encrypting reader \<open>wrappedIn\<close>.\<close>

definition streamOut :: "cipher \<Rightarrow> file_streamer \<Rightarrow> bytes \<Rightarrow> file_stream" where
  "streamOut c stream wrappedIn =
     \<lparr>Obj = \<lparr>ID = GetID stream, Path = GetPath stream,
             Name = EncryptFileName c (GetName stream),
             Size = EncryptedSize c (GetSize stream),
             Modified = ModTime stream, IsFolder = IsDir stream\<rparr>,
      ReadCloser = wrappedIn, Mimetype = ''application/octet-stream'',
      WebPutAsTask = NeedStore stream, Old = GetOld stream\<rparr>"

text \<open>\<open>Put\<close> returns its error, the state of the remote, and the calls of \<open>op.Put\<close> it
  made: the remote directory and the stream handed over.\<close>

definition Put ::
  "('s, 'q) env \<Rightarrow> cipher \<Rightarrow> 's \<Rightarrow> robj \<Rightarrow> file_streamer
     \<Rightarrow> error option \<times> 's \<times> (string \<times> file_stream) list" where
  "Put e c s dstDir stream =
     (case getActualPathForRemote e (GetPath dstDir) True of
        Inl err \<Rightarrow> (Some (ConvertPathFailed err), s, [])
      | Inr dstDirActualPath \<Rightarrow>
          (let in' = GetReadCloser stream in
           case EncryptData c in' of
             Inl err \<Rightarrow> (Some (EncryptDataFailed err), s, [])
           | Inr wrappedIn \<Rightarrow>
               (case opPut e s dstDirActualPath (streamOut c stream wrappedIn) of
                  (err, s') \<Rightarrow> (err, s', [(dstDirActualPath, streamOut c stream wrappedIn)]))))"

subsection \<open>Definitions in the specification's words\<close>

text \<open>
  The suffix invariant in the specification's words: a dot followed by two or more
  characters, each alphanumeric, \<open>_\<close> or \<open>-\<close> (the pattern with the classes \<open>A-Z\<close>, \<open>a-z\<close>, \<open>0-9\<close>, \<open>_\<close> and \<open>-\<close>).
\<close>

definition spec_alphanumeric :: "char \<Rightarrow> bool" where
  "spec_alphanumeric c =
     ((CHR ''A'' \<le> c \<and> c \<le> CHR ''Z'') \<or> (CHR ''a'' \<le> c \<and> c \<le> CHR ''z'')
      \<or> (CHR ''0'' \<le> c \<and> c \<le> CHR ''9''))"

definition spec_suffix_ok :: "string \<Rightarrow> bool" where
  "spec_suffix_ok s =
     (s \<noteq> [] \<and> hd s = CHR ''.'' \<and> 2 \<le> length (tl s)
      \<and> (\<forall>c \<in> set (tl s). spec_alphanumeric c \<or> c = CHR ''_'' \<or> c = CHR ''-''))"

text \<open>
  A listing in the specification's words: the entries whose name (and, for files, size)
  decodes, each with its decrypted name and size.
\<close>

definition spec_decodes :: "cipher \<Rightarrow> robj \<Rightarrow> bool" where
  "spec_decodes c ob =
     (if IsDir ob then \<not> isl (DecryptDirName c (GetName ob))
      else \<not> isl (DecryptFileName c (GetName ob)) \<and> \<not> isl (DecryptedSize c (GetSize ob)))"

definition spec_entry :: "cipher \<Rightarrow> (robj \<Rightarrow> string \<times> bool) \<Rightarrow> robj \<Rightarrow> obj" where
  "spec_entry c gt ob =
     (let entry =
            zeroObject\<lparr>Name := (if IsDir ob then projr (DecryptDirName c (GetName ob))
                                 else projr (DecryptFileName c (GetName ob))),
                        Size := (if IsDir ob then 0 else projr (DecryptedSize c (GetSize ob))),
                        Modified := ModTime ob, IsFolder := IsDir ob\<rparr>
      in if \<not> IsDir ob \<and> snd (gt ob) then ObjThumb entry (fst (gt ob)) else Object entry)"

subsection \<open>Example collaborators\<close>

text \<open>
  A small cipher and remote on which the theorems below are run: names are encrypted by
  a prefix, sizes by a header of 32 bytes; the remote is a table from paths to results of
  \<open>fs.Get\<close>, a path outside the table being not found; the HTTP server answers every
  request with the given status and the same body of 20 bytes.
\<close>

definition ex_cipher :: cipher where
  "ex_cipher =
     \<lparr>DecryptDirName = (\<lambda>n. if HasPrefix n ''d_'' then Inr (drop 2 n) else Inl (Foreign ''name'')),
      DecryptFileName = (\<lambda>n. if HasPrefix n ''f_'' then Inr (drop 2 n) else Inl (Foreign ''name'')),
      DecryptedSize = (\<lambda>n. if 32 \<le> n then Inr (n - 32) else Inl (Foreign ''size'')),
      EncryptDirName = (\<lambda>n. ''d_'' @ n),
      EncryptFileName = (\<lambda>n. ''f_'' @ n),
      EncryptedSize = (\<lambda>n. n + 32),
      EncryptData = (\<lambda>b. Inr (rev b)),
      DecryptDataSeek = (\<lambda>f start len. f (start + 32) len)\<rparr>"

definition ex_body :: bytes where
  "ex_body = [0, 1, 2, 3, 4, 5, 6, 7, 8, 9, 10, 11, 12, 13, 14, 15, 16, 17, 18, 19]"

definition ex_robj :: "string \<Rightarrow> int \<Rightarrow> bool \<Rightarrow> robj" where
  "ex_robj n sz dir =
     \<lparr>GetID = [], GetPath = [], GetName = n, GetSize = sz, ModTime = 7, IsDir = dir\<rparr>"

definition ex_remote :: "(string \<times> (error + robj)) list" where
  "ex_remote =
     [(''/enc/f_a'', Inr (ex_robj ''f_a'' 42 False)),
      (''/enc/f_raw'', Inr (ex_robj ''raw.bin'' 5 False)),
      (''/enc/d_sub'', Inr (ex_robj ''d_sub'' 4096 True)),
      (''/enc/d_locked'', Inl (Foreign ''denied''))]"

definition ex_stream :: file_streamer where
  "ex_stream =
     \<lparr>GetID = ''id7'', GetPath = ''/docs/a.txt'', GetName = ''a.txt'', GetSize = 3, ModTime = 9,
      IsDir = False, GetReadCloser = [1, 2, 3], NeedStore = False, GetOld = None\<rparr>"

definition ex_url_link :: link where
  "ex_url_link =
     \<lparr>URL = ''http://remote/x'', Header = [], RangeReader = None, ReadSeekCloser = None,
      Expiration = None\<rparr>"

definition ex_no_link :: link where
  "ex_no_link =
     \<lparr>URL = [], Header = [], RangeReader = None, ReadSeekCloser = None, Expiration = None\<rparr>"

definition ex_remote_path :: "string \<Rightarrow> bool \<Rightarrow> string" where
  "ex_remote_path p isDir = ''/enc/'' @ (if isDir then ''d_'' else ''f_'') @ drop 1 p"

definition ex_fsGet ::
  "(string \<times> (error + robj)) list \<Rightarrow> string
     \<Rightarrow> (error + robj) \<times> (string \<times> (error + robj)) list" where
  "ex_fsGet s p = (case map_of s p of None \<Rightarrow> (Inl ObjectNotFound, s) | Some r \<Rightarrow> (r, s))"

definition ex_env :: "link \<Rightarrow> int \<Rightarrow> ((string \<times> (error + robj)) list, unit) env" where
  "ex_env l status =
     \<lparr>PathEqual = (\<lambda>p q. p = q),
      guessPath = (\<lambda>p. (False, True)),
      getPathForRemote = ex_remote_path,
      getActualPathForRemote = (\<lambda>p isDir. Inr (ex_remote_path p isDir)),
      fsGet = ex_fsGet,
      fsList = (\<lambda>s p. (Inr (concat (map (\<lambda>(k, r). case r of Inl err \<Rightarrow> [] | Inr ob \<Rightarrow> [ob]) s)), s)),
      IsObjectNotFound = (\<lambda>err. err = ObjectNotFound),
      GetThumb = (\<lambda>ob. ([], False)),
      opLink = (\<lambda>s p args. (Inr (l, ex_robj ''f_x'' 20 False), s)),
      opPut = (\<lambda>s p st. (None, s)),
      RequestRangedHttp = (\<lambda>args url hdr off len. (Some \<lparr>StatusCode = status, Body = ex_body\<rparr>, None)),
      GetRangedHttpReader = spec_GetRangedHttpReader\<rparr>"

definition ex_init_env :: "(nat, string) init_env" where
  "ex_init_env =
     \<lparr>Obscure = (\<lambda>r str. (Inr (rev str @ replicate r CHR ''x''), Suc r)),
      GetStorage = (\<lambda>p. if p = ''/remote'' then Inr ''storage'' else Inl (Foreign ''storage'')),
      NewCipher = (\<lambda>config. Inr ex_cipher)\<rparr>"

definition ex_crypt :: "string \<Rightarrow> string \<Rightarrow> string crypt" where
  "ex_crypt suffix remote =
     \<lparr>Password = ''pw'', Salt = ''salt'', EncryptedSuffix = suffix, RemotePath = remote,
      FileNameEnc = ''standard'', DirNameEnc = ''true'', cipher = None, remoteStorage = None\<rparr>"

section \<open>Properties\<close>

lemma HasPrefix_append: "HasPrefix (p @ t) p"
  by (simp add: HasPrefix_def)

lemma isCryptExt_spec: "isCryptExt s = spec_suffix_ok s"
  by (cases s) (auto simp: spec_suffix_ok_def spec_alphanumeric_def cryptExtChar_def list_all_iff)

subsection \<open>Init: credentials\<close>

lemma updateObfusParm_prefixed:
  "HasPrefix s obfuscatedPrefix \<Longrightarrow> updateObfusParm obs r s = (None, s, r)"
  by (simp add: updateObfusParm_def)

lemma updateObfusParm_None:
  "updateObfusParm obs r s = (None, s', r') \<Longrightarrow> HasPrefix s' obfuscatedPrefix"
  by (auto simp: updateObfusParm_def HasPrefix_append split: if_splits prod.splits sum.splits)

lemma Init_past_obfuscation:
  assumes "Init env r d = (res, d', r', saved)"
    and "\<forall>err. res \<noteq> Some (ObfuscatePasswordFailed err)"
    and "\<forall>err. res \<noteq> Some (ObfuscateSaltFailed err)"
  shows "HasPrefix (Password d') obfuscatedPrefix \<and> HasPrefix (Salt d') obfuscatedPrefix"
  using assms
  by (auto simp: Init_def Let_def split: prod.splits option.splits if_splits sum.splits
           dest: updateObfusParm_None)

lemma Init_prefixed:
  assumes "HasPrefix (Password d) obfuscatedPrefix" and "HasPrefix (Salt d) obfuscatedPrefix"
    and "Init env r d = (res, d', r', saved)"
  shows "Password d' = Password d \<and> Salt d' = Salt d \<and> r' = r"
  using assms
  by (auto simp: Init_def Let_def updateObfusParm_prefixed split: sum.splits if_splits)

text \<open>
  C10. The obfuscation step is idempotent. A string that carries the prefix
  \<open>___Obfuscated___\<close> is left as it is, without error and without a call of
  \<open>Obscure\<close>. A string without the prefix becomes the prefix followed by the obscured
  text when \<open>Obscure\<close> succeeds (when it fails, the error is returned and the string
  stays). Hence whatever a successful step leaves carries the prefix and a second step,
  with any \<open>Obscure\<close>, changes nothing; and an \<open>Init\<close> that ran after an \<open>Init\<close> which
  got past the two obfuscation steps leaves password and salt as they are and draws no
  randomness.
\<close>

theorem updateObfusParm_idempotent:
  "(HasPrefix s obfuscatedPrefix \<longrightarrow> updateObfusParm obs r s = (None, s, r))
   \<and> (\<not> HasPrefix s obfuscatedPrefix \<longrightarrow>
        (\<forall>t r'. obs r s = (Inr t, r') \<longrightarrow>
           updateObfusParm obs r s = (None, obfuscatedPrefix @ t, r')
           \<and> HasPrefix (obfuscatedPrefix @ t) obfuscatedPrefix)
        \<and> (\<forall>err r'. obs r s = (Inl err, r') \<longrightarrow> updateObfusParm obs r s = (Some err, s, r')))
   \<and> (\<forall>s' r'. updateObfusParm obs r s = (None, s', r') \<longrightarrow>
         HasPrefix s' obfuscatedPrefix \<and> updateObfusParm obs2 r' s' = (None, s', r'))
   \<and> (\<forall>res d' r' saved res2 d'' r'' saved2.
         Init env r d = (res, d', r', saved)
         \<and> (\<forall>err. res \<noteq> Some (ObfuscatePasswordFailed err))
         \<and> (\<forall>err. res \<noteq> Some (ObfuscateSaltFailed err))
         \<and> Init env2 r' d' = (res2, d'', r'', saved2) \<longrightarrow>
         HasPrefix (Password d') obfuscatedPrefix \<and> HasPrefix (Salt d') obfuscatedPrefix
         \<and> Password d'' = Password d' \<and> Salt d'' = Salt d' \<and> r'' = r')"
proof (intro conjI impI allI)
  fix s' r'
  assume "updateObfusParm obs r s = (None, s', r')"
  then show "HasPrefix s' obfuscatedPrefix"
    by (rule updateObfusParm_None)
  then show "updateObfusParm obs2 r' s' = (None, s', r')"
    by (rule updateObfusParm_prefixed)
next
  fix res d' r' saved res2 d'' r'' saved2
  assume a: "Init env r d = (res, d', r', saved)
         \<and> (\<forall>err. res \<noteq> Some (ObfuscatePasswordFailed err))
         \<and> (\<forall>err. res \<noteq> Some (ObfuscateSaltFailed err))
         \<and> Init env2 r' d' = (res2, d'', r'', saved2)"
  then have p: "HasPrefix (Password d') obfuscatedPrefix \<and> HasPrefix (Salt d') obfuscatedPrefix"
    using Init_past_obfuscation [of env r d res d' r' saved] by blast
  then show "HasPrefix (Password d') obfuscatedPrefix" "HasPrefix (Salt d') obfuscatedPrefix"
    by simp_all
  from p a have "Password d'' = Password d' \<and> Salt d'' = Salt d' \<and> r'' = r'"
    using Init_prefixed [of d' env2 r' res2 d'' r'' saved2] by blast
  then show "Password d'' = Password d'" "Salt d'' = Salt d'" "r'' = r'"
    by simp_all
qed (simp_all add: updateObfusParm_def HasPrefix_append)

theorem updateObfusParm_idempotent_witness:
  "updateObfusParm (Obscure ex_init_env) 0 ''pw'' = (None, ''___Obfuscated___wp'', 1)
   \<and> updateObfusParm (Obscure ex_init_env) 1 ''___Obfuscated___wp''
       = (None, ''___Obfuscated___wp'', 1)
   \<and> Password (fst (snd (Init ex_init_env 2
         (fst (snd (Init ex_init_env 0 (ex_crypt ''.bin'' ''/remote''))))))) = ''___Obfuscated___wp''"
proof -
  have o: "Obscure ex_init_env 0 ''pw'' = (Inr ''wp'', 1)"
    by (simp add: ex_init_env_def)
  have n: "\<not> HasPrefix ''pw'' obfuscatedPrefix"
    by (simp add: HasPrefix_def obfuscatedPrefix_def)
  let ?I = "Init ex_init_env 0 (ex_crypt ''.bin'' ''/remote'')"
  let ?J = "Init ex_init_env 2 (fst (snd ?I))"
  note t = updateObfusParm_idempotent
             [of "''pw''" "Obscure ex_init_env" 0 "Obscure ex_init_env" ex_init_env
                 "ex_crypt ''.bin'' ''/remote''" ex_init_env]
  from t n o
  have 1: "updateObfusParm (Obscure ex_init_env) 0 ''pw'' = (None, obfuscatedPrefix @ ''wp'', 1)"
    by blast
  with t
  have 2: "updateObfusParm (Obscure ex_init_env) 1 (obfuscatedPrefix @ ''wp'')
             = (None, obfuscatedPrefix @ ''wp'', 1)"
    by blast
  have i: "fst ?I = None" "Password (fst (snd ?I)) = ''___Obfuscated___wp''"
    "fst (snd (snd ?I)) = 2"
    by (simp_all add: Init_def Let_def updateObfusParm_def ex_init_env_def ex_crypt_def
          HasPrefix_def obfuscatedPrefix_def cryptExtChar_def less_eq_char_def)
  have I: "?I = (None, fst (snd ?I), 2, snd (snd (snd ?I)))"
    using i by (simp add: prod_eq_iff)
  have J: "?J = (fst ?J, fst (snd ?J), fst (snd (snd ?J)), snd (snd (snd ?J)))"
    by simp
  from t have "Init ex_init_env 0 (ex_crypt ''.bin'' ''/remote'')
         = (None, fst (snd ?I), 2, snd (snd (snd ?I)))
         \<and> (\<forall>err. None \<noteq> Some (ObfuscatePasswordFailed err))
         \<and> (\<forall>err. None \<noteq> Some (ObfuscateSaltFailed err))
         \<and> Init ex_init_env 2 (fst (snd ?I)) = (fst ?J, fst (snd ?J), fst (snd (snd ?J)), snd (snd (snd ?J)))
         \<longrightarrow> Password (fst (snd ?J)) = Password (fst (snd ?I))"
    by blast
  with I J have "Password (fst (snd ?J)) = Password (fst (snd ?I))"
    by simp
  with 1 2 i show ?thesis
    by (simp add: obfuscatedPrefix_def)
qed

subsection \<open>Init: the suffix and the remote storage\<close>

lemma Init_suffix_illegal:
  "\<not> isCryptExt (EncryptedSuffix d) \<Longrightarrow>
     fst (Init env r d) \<noteq> None \<and> cipher (fst (snd (Init env r d))) = cipher d
     \<and> remoteStorage (fst (snd (Init env r d))) = remoteStorage d"
  by (simp add: Init_def Let_def split: prod.splits option.splits)

lemma Init_no_storage:
  "GetStorage env (RemotePath d) = Inl err \<Longrightarrow>
     fst (Init env r d) \<noteq> None \<and> cipher (fst (snd (Init env r d))) = cipher d
     \<and> remoteStorage (fst (snd (Init env r d))) = remoteStorage d"
  by (simp add: Init_def Let_def split: prod.splits option.splits)

lemma Init_checks_pass:
  "isCryptExt (EncryptedSuffix d) \<Longrightarrow> GetStorage env (RemotePath d) = Inr st \<Longrightarrow>
     fst (Init env r d) \<noteq> Some EncryptedSuffixIllegal
     \<and> fst (Init env r d) \<noteq> Some (RemoteStorageNotFound err)"
  by (simp add: Init_def Let_def split: prod.splits option.splits sum.splits)

text \<open>
  C7. \<open>Init\<close> returns an error, and leaves the cipher and the remote storage of the
  receiver as they were, whenever the suffix is not a dot followed by two or more
  characters of \<open>A-Z\<close>, \<open>a-z\<close>, \<open>0-9\<close>, \<open>_\<close>, \<open>-\<close>, or \<open>fs.GetStorage\<close> fails on the
  remote path. When the suffix has that shape and the remote storage resolves, \<open>Init\<close>
  fails with neither of the two errors of these checks.
\<close>

theorem Init_checks_suffix_and_remote:
  "(\<not> spec_suffix_ok (EncryptedSuffix d) \<or> isl (GetStorage env (RemotePath d)) \<longrightarrow>
      fst (Init env r d) \<noteq> None
      \<and> cipher (fst (snd (Init env r d))) = cipher d
      \<and> remoteStorage (fst (snd (Init env r d))) = remoteStorage d)
   \<and> (spec_suffix_ok (EncryptedSuffix d) \<and> \<not> isl (GetStorage env (RemotePath d)) \<longrightarrow>
        fst (Init env r d) \<noteq> Some EncryptedSuffixIllegal
        \<and> (\<forall>err. fst (Init env r d) \<noteq> Some (RemoteStorageNotFound err)))"
proof (intro conjI impI)
  assume "\<not> spec_suffix_ok (EncryptedSuffix d) \<or> isl (GetStorage env (RemotePath d))"
  then consider "\<not> isCryptExt (EncryptedSuffix d)"
    | err where "GetStorage env (RemotePath d) = Inl err"
    by (auto simp: isCryptExt_spec isl_def)
  then have "fst (Init env r d) \<noteq> None \<and> cipher (fst (snd (Init env r d))) = cipher d
     \<and> remoteStorage (fst (snd (Init env r d))) = remoteStorage d"
    by cases (simp_all only: Init_suffix_illegal Init_no_storage simp_thms)
  then show "fst (Init env r d) \<noteq> None" "cipher (fst (snd (Init env r d))) = cipher d"
    "remoteStorage (fst (snd (Init env r d))) = remoteStorage d"
    by simp_all
next
  assume "spec_suffix_ok (EncryptedSuffix d) \<and> \<not> isl (GetStorage env (RemotePath d))"
  then obtain st where "isCryptExt (EncryptedSuffix d)" "GetStorage env (RemotePath d) = Inr st"
    by (cases "GetStorage env (RemotePath d)") (auto simp: isCryptExt_spec)
  then have "fst (Init env r d) \<noteq> Some EncryptedSuffixIllegal
     \<and> fst (Init env r d) \<noteq> Some (RemoteStorageNotFound err)" for err
    by (rule Init_checks_pass)
  then show "fst (Init env r d) \<noteq> Some EncryptedSuffixIllegal"
     "\<forall>err. fst (Init env r d) \<noteq> Some (RemoteStorageNotFound err)"
    by simp_all
qed

theorem Init_checks_suffix_and_remote_witness:
  "fst (Init ex_init_env 0 (ex_crypt ''.b'' ''/remote'')) \<noteq> None
   \<and> fst (Init ex_init_env 0 (ex_crypt ''.bin'' ''/nowhere'')) \<noteq> None
   \<and> cipher (fst (snd (Init ex_init_env 0 (ex_crypt ''.bin'' ''/nowhere'')))) = None
   \<and> fst (Init ex_init_env 0 (ex_crypt ''.bin'' ''/remote'')) \<noteq> Some EncryptedSuffixIllegal"
proof -
  have bad: "\<not> spec_suffix_ok (EncryptedSuffix (ex_crypt ''.b'' ''/remote''))"
    by (simp add: ex_crypt_def spec_suffix_ok_def)
  have good: "spec_suffix_ok (EncryptedSuffix (ex_crypt ''.bin'' p))" for p
    by (simp add: ex_crypt_def spec_suffix_ok_def spec_alphanumeric_def less_eq_char_def)
  have nowhere: "isl (GetStorage ex_init_env (RemotePath (ex_crypt ''.bin'' ''/nowhere'')))"
    by (simp add: ex_crypt_def ex_init_env_def)
  have remote: "\<not> isl (GetStorage ex_init_env (RemotePath (ex_crypt ''.bin'' ''/remote'')))"
    by (simp add: ex_crypt_def ex_init_env_def)
  have c: "cipher (ex_crypt ''.bin'' ''/nowhere'') = None"
    by (simp add: ex_crypt_def)
  show ?thesis
    using Init_checks_suffix_and_remote [of "ex_crypt ''.b'' ''/remote''" ex_init_env 0]
      Init_checks_suffix_and_remote [of "ex_crypt ''.bin'' ''/nowhere''" ex_init_env 0]
      Init_checks_suffix_and_remote [of "ex_crypt ''.bin'' ''/remote''" ex_init_env 0]
      bad good nowhere remote c
    by metis
qed

subsection \<open>List\<close>

lemma listLoop_spec:
  "listLoop c gt objs acc = acc @ map (spec_entry c gt) (filter (spec_decodes c) objs)"
proof (induction objs arbitrary: acc)
  case Nil
  show ?case by simp
next
  case (Cons ob objs)
  show ?case
  proof (cases "IsDir ob")
    case True
    then show ?thesis
      by (cases "DecryptDirName c (GetName ob)")
         (simp_all add: Cons.IH spec_decodes_def spec_entry_def)
  next
    case False
    obtain thumb ok where g: "gt ob = (thumb, ok)"
      by (cases "gt ob")
    from False g show ?thesis
      by (cases "DecryptedSize c (GetSize ob)"; cases "DecryptFileName c (GetName ob)")
         (simp_all add: Cons.IH spec_decodes_def spec_entry_def Let_def)
  qed
qed

text \<open>
  C2. Whenever the remote returns a list of entries, \<open>List\<close> succeeds, and its result is
  exactly the entries whose name (and, for a file, size) the cipher decodes, in the
  remote's order, each with its decrypted name and size; an entry that fails to decode is
  left out and the listing goes on.
\<close>

theorem List_skips_undecodable:
  "fsList e s (getPathForRemote e (GetPath dir) True) = (Inr objs, s') \<Longrightarrow>
     List e c s dir = (Inr (map (spec_entry c (GetThumb e)) (filter (spec_decodes c) objs)), s')"
  by (simp add: List_def listLoop_spec)

theorem List_skips_undecodable_witness:
  "List (ex_env ex_url_link 200) ex_cipher ex_remote (ex_robj [] 0 True)
     = (Inr [Object (zeroObject\<lparr>Name := ''a'', Size := 10, Modified := 7\<rparr>),
             Object (zeroObject\<lparr>Name := ''sub'', Modified := 7, IsFolder := True\<rparr>)], ex_remote)"
proof -
  have l: "fsList (ex_env ex_url_link 200) ex_remote
             (getPathForRemote (ex_env ex_url_link 200) (GetPath (ex_robj [] 0 True)) True)
           = (Inr [ex_robj ''f_a'' 42 False, ex_robj ''raw.bin'' 5 False,
                   ex_robj ''d_sub'' 4096 True], ex_remote)"
    by (simp add: ex_env_def ex_remote_def)
  show ?thesis
    using List_skips_undecodable [OF l, of ex_cipher]
    by (simp add: spec_decodes_def spec_entry_def ex_cipher_def ex_robj_def ex_env_def
          HasPrefix_def zeroObject_def)
qed


subsection \<open>Get\<close>

lemma Get_nonroot:
  assumes "\<not> PathEqual e path ''/''" and "guessPath e path = (firstTryIsFolder, secondTry)"
    and "fsGet e s (getPathForRemote e path firstTryIsFolder) = (r1, s1)"
  shows "Get e c s path =
     (case r1 of
        Inr remoteObj \<Rightarrow>
          (Inr (decryptRemoteObj c path remoteObj), s1, [getPathForRemote e path firstTryIsFolder])
      | Inl err \<Rightarrow>
          if IsObjectNotFound e err \<and> secondTry then
            (case fsGet e s1 (getPathForRemote e path (\<not> firstTryIsFolder)) of
               (r2, s2) \<Rightarrow>
                 (case r2 of Inl err2 \<Rightarrow> Inl err2
                           | Inr remoteObj \<Rightarrow> Inr (decryptRemoteObj c path remoteObj),
                  s2,
                  [getPathForRemote e path firstTryIsFolder,
                   getPathForRemote e path (\<not> firstTryIsFolder)]))
          else (Inl err, s1, [getPathForRemote e path firstTryIsFolder]))"
  using assms
  by (simp add: Get_def Let_def split: sum.splits prod.splits)

text \<open>
  C1. For a path that is not the root, \<open>Get\<close> queries the remote at most twice. The
  first query is the path resolved under the first guess. When it succeeds, or fails with
  an error that is not "object not found", or no second guess is allowed, it is the only
  query and its outcome is returned. When it fails with "object not found" and a second
  guess is allowed, exactly one more query follows, with the opposite type, and its
  outcome is returned: the second error when it fails too.
\<close>

theorem Get_two_tries:
  assumes "\<not> PathEqual e path ''/''" and "guessPath e path = (firstTryIsFolder, secondTry)"
    and "fsGet e s (getPathForRemote e path firstTryIsFolder) = (r1, s1)"
    and "fsGet e s1 (getPathForRemote e path (\<not> firstTryIsFolder)) = (r2, s2)"
  shows
    "length (snd (snd (Get e c s path))) \<le> 2
     \<and> (\<forall>remoteObj. r1 = Inr remoteObj \<longrightarrow>
           Get e c s path =
             (Inr (decryptRemoteObj c path remoteObj), s1,
              [getPathForRemote e path firstTryIsFolder]))
     \<and> (\<forall>err. r1 = Inl err \<and> \<not> (IsObjectNotFound e err \<and> secondTry) \<longrightarrow>
           Get e c s path = (Inl err, s1, [getPathForRemote e path firstTryIsFolder]))
     \<and> (\<forall>err. r1 = Inl err \<and> IsObjectNotFound e err \<and> secondTry \<longrightarrow>
           snd (Get e c s path) =
             (s2, [getPathForRemote e path firstTryIsFolder,
                   getPathForRemote e path (\<not> firstTryIsFolder)])
           \<and> (\<forall>err2. r2 = Inl err2 \<longrightarrow> fst (Get e c s path) = Inl err2)
           \<and> (\<forall>remoteObj. r2 = Inr remoteObj \<longrightarrow>
                 fst (Get e c s path) = Inr (decryptRemoteObj c path remoteObj)))"
  using assms(4) by (cases r1) (auto simp: Get_nonroot [OF assms(1-3)])

theorem Get_two_tries_witness:
  "Get (ex_env ex_url_link 200) ex_cipher ex_remote ''/locked''
     = (Inl (Foreign ''denied''), ex_remote, [''/enc/f_locked'', ''/enc/d_locked''])"
proof -
  let ?e = "ex_env ex_url_link 200"
  have 1: "\<not> PathEqual ?e ''/locked'' ''/''"
    by (simp add: ex_env_def)
  have 2: "guessPath ?e ''/locked'' = (False, True)"
    by (simp add: ex_env_def)
  have p1: "getPathForRemote ?e ''/locked'' False = ''/enc/f_locked''"
    and p2: "getPathForRemote ?e ''/locked'' (\<not> False) = ''/enc/d_locked''"
    by (simp_all add: ex_env_def ex_remote_path_def)
  have 3: "fsGet ?e ex_remote (getPathForRemote ?e ''/locked'' False)
             = (Inl ObjectNotFound, ex_remote)"
    unfolding p1 by (simp add: ex_env_def ex_fsGet_def ex_remote_def)
  have 4: "fsGet ?e ex_remote (getPathForRemote ?e ''/locked'' (\<not> False))
             = (Inl (Foreign ''denied''), ex_remote)"
    unfolding p2 by (simp add: ex_env_def ex_fsGet_def ex_remote_def)
  have 5: "IsObjectNotFound ?e ObjectNotFound"
    by (simp add: ex_env_def)
  from Get_two_tries [OF 1 2 3 4, of ex_cipher] 5 p1 p2
  have "snd (Get ?e ex_cipher ex_remote ''/locked'')
          = (ex_remote, [''/enc/f_locked'', ''/enc/d_locked''])
        \<and> fst (Get ?e ex_cipher ex_remote ''/locked'') = Inl (Foreign ''denied'')"
    by simp
  then show ?thesis
    by (simp add: prod_eq_iff)
qed

text \<open>
  C6. On a path that is equal to the root (the test \<open>utils.PathEqual\<close> of the source),
  \<open>Get\<close> succeeds with the directory named "Root" at path "/", whatever the state of
  the remote, which it neither queries nor changes.
\<close>

theorem Get_root:
  "PathEqual e path ''/'' \<Longrightarrow>
     (\<exists>ob. Get e c s path = (Inr ob, s, [])
        \<and> Name ob = ''Root'' \<and> Path ob = ''/'' \<and> IsFolder ob \<and> Size ob = 0)"
  by (simp add: Get_def zeroObject_def)

theorem Get_root_witness:
  "PathEqual (ex_env ex_url_link 200) ''/'' ''/''
   \<and> (\<exists>ob. Get (ex_env ex_url_link 200) ex_cipher ex_remote ''/'' = (Inr ob, ex_remote, [])
        \<and> Name ob = ''Root'' \<and> Path ob = ''/'' \<and> IsFolder ob \<and> Size ob = 0)"
proof -
  have h: "PathEqual (ex_env ex_url_link 200) ''/'' ''/''"
    by (simp add: ex_env_def)
  from h Get_root [OF h] show ?thesis by blast
qed

lemma decryptRemoteObj_fields:
  "Path (decryptRemoteObj c path ob) = path
   \<and> IsFolder (decryptRemoteObj c path ob) = IsDir ob
   \<and> Modified (decryptRemoteObj c path ob) = ModTime ob
   \<and> Name (decryptRemoteObj c path ob) =
       (case (if IsDir ob then DecryptDirName c (GetName ob) else DecryptFileName c (GetName ob)) of
          Inl err \<Rightarrow> GetName ob | Inr name \<Rightarrow> name)
   \<and> Size (decryptRemoteObj c path ob) =
       (if IsDir ob then 0
        else case DecryptedSize c (GetSize ob) of Inl err \<Rightarrow> GetSize ob | Inr n \<Rightarrow> n)"
  by (simp add: decryptRemoteObj_def zeroObject_def split: sum.splits)

text \<open>
  C9. Whenever \<open>Get\<close> fetches a remote object, at the first or at the second try, it
  succeeds: a size or a name that the cipher rejects is replaced by the remote's raw size
  or name, and a size or name that decodes is returned decrypted.
\<close>

theorem Get_decode_failure_degrades:
  assumes "\<not> PathEqual e path ''/''" and "guessPath e path = (firstTryIsFolder, secondTry)"
    and "fsGet e s (getPathForRemote e path firstTryIsFolder) = (r1, s1)"
    and "fsGet e s1 (getPathForRemote e path (\<not> firstTryIsFolder)) = (r2, s2)"
    and "r1 = Inr remoteObj
         \<or> (\<exists>err. r1 = Inl err \<and> IsObjectNotFound e err \<and> secondTry) \<and> r2 = Inr remoteObj"
  shows
    "\<exists>ob. fst (Get e c s path) = Inr ob
       \<and> Path ob = path \<and> IsFolder ob = IsDir remoteObj \<and> Modified ob = ModTime remoteObj
       \<and> (IsDir remoteObj \<longrightarrow>
            Size ob = 0
            \<and> (\<forall>err. DecryptDirName c (GetName remoteObj) = Inl err \<longrightarrow> Name ob = GetName remoteObj)
            \<and> (\<forall>name. DecryptDirName c (GetName remoteObj) = Inr name \<longrightarrow> Name ob = name))
       \<and> (\<not> IsDir remoteObj \<longrightarrow>
            (\<forall>err. DecryptedSize c (GetSize remoteObj) = Inl err \<longrightarrow> Size ob = GetSize remoteObj)
            \<and> (\<forall>n. DecryptedSize c (GetSize remoteObj) = Inr n \<longrightarrow> Size ob = n)
            \<and> (\<forall>err. DecryptFileName c (GetName remoteObj) = Inl err \<longrightarrow> Name ob = GetName remoteObj)
            \<and> (\<forall>name. DecryptFileName c (GetName remoteObj) = Inr name \<longrightarrow> Name ob = name))"
proof -
  from assms(5) have "fst (Get e c s path) = Inr (decryptRemoteObj c path remoteObj)"
    using assms(4) by (auto simp: Get_nonroot [OF assms(1-3)])
  then show ?thesis
    by (auto simp: decryptRemoteObj_fields)
qed

theorem Get_decode_failure_degrades_witness:
  "\<exists>ob. fst (Get (ex_env ex_url_link 200) ex_cipher ex_remote ''/raw'') = Inr ob
     \<and> Name ob = ''raw.bin'' \<and> Size ob = 5"
proof -
  let ?e = "ex_env ex_url_link 200"
  have 1: "\<not> PathEqual ?e ''/raw'' ''/''"
    by (simp add: ex_env_def)
  have 2: "guessPath ?e ''/raw'' = (False, True)"
    by (simp add: ex_env_def)
  have 3: "fsGet ?e ex_remote (getPathForRemote ?e ''/raw'' False)
             = (Inr (ex_robj ''raw.bin'' 5 False), ex_remote)"
    by (simp add: ex_env_def ex_remote_path_def ex_fsGet_def ex_remote_def)
  have 4: "fsGet ?e ex_remote (getPathForRemote ?e ''/raw'' (\<not> False))
             = (Inl ObjectNotFound, ex_remote)"
    by (simp add: ex_env_def ex_remote_path_def ex_fsGet_def ex_remote_def)
  have 5: "Inr (ex_robj ''raw.bin'' 5 False) = Inr (ex_robj ''raw.bin'' 5 False)
         \<or> (\<exists>err. Inr (ex_robj ''raw.bin'' 5 False) = Inl err \<and> IsObjectNotFound ?e err \<and> True)
            \<and> Inl ObjectNotFound = Inr (ex_robj ''raw.bin'' 5 False)"
    by simp
  have f: "\<not> IsDir (ex_robj ''raw.bin'' 5 False)"
    and n: "DecryptFileName ex_cipher (GetName (ex_robj ''raw.bin'' 5 False)) = Inl (Foreign ''name'')"
    and z: "DecryptedSize ex_cipher (GetSize (ex_robj ''raw.bin'' 5 False)) = Inl (Foreign ''size'')"
    and g: "GetName (ex_robj ''raw.bin'' 5 False) = ''raw.bin''" "GetSize (ex_robj ''raw.bin'' 5 False) = 5"
    by (simp_all add: ex_robj_def ex_cipher_def HasPrefix_def)
  from Get_decode_failure_degrades [OF 1 2 3 4 5, of ex_cipher] f n z g
  show ?thesis
    by auto
qed

subsection \<open>Link\<close>

text \<open>
  C8. Once the remote has handed out a link: when the link has no range reader, no
  seekable reader and an empty URL, \<open>Link\<close> fails with the error of line 236 and returns
  no link; when it has at least one of the three, \<open>Link\<close> returns a link with a range
  reader.
\<close>

theorem Link_capability_check:
  assumes "getActualPathForRemote e (GetPath file) False = Inr dstDirActualPath"
    and "opLink e s dstDirActualPath args = (Inr (remoteLink, remoteFile), s')"
  shows
    "(RangeReader remoteLink = None \<and> ReadSeekCloser remoteLink = None \<and> URL remoteLink = []
        \<longrightarrow> Link e c s file args = (Inl NeedEnhancement, s'))
     \<and> (RangeReader remoteLink \<noteq> None \<or> ReadSeekCloser remoteLink \<noteq> None \<or> URL remoteLink \<noteq> []
        \<longrightarrow> (\<exists>resultLink. Link e c s file args = (Inr resultLink, s')
               \<and> RangeReader resultLink \<noteq> None))"
  using assms by (auto simp: Link_def Let_def)

theorem Link_capability_check_witness:
  "Link (ex_env ex_no_link 200) ex_cipher ex_remote (ex_robj ''x'' 0 False) ()
     = (Inl NeedEnhancement, ex_remote)
   \<and> (\<exists>resultLink. Link (ex_env ex_url_link 200) ex_cipher ex_remote (ex_robj ''x'' 0 False) ()
          = (Inr resultLink, ex_remote))"
proof -
  have 1: "getActualPathForRemote (ex_env l 200) (GetPath (ex_robj ''x'' 0 False)) False
             = Inr ''/enc/f_''" for l
    by (simp add: ex_env_def ex_remote_path_def ex_robj_def)
  have 2: "opLink (ex_env l 200) ex_remote ''/enc/f_'' ()
             = (Inr (l, ex_robj ''f_x'' 20 False), ex_remote)" for l
    by (simp add: ex_env_def)
  have n: "RangeReader ex_no_link = None \<and> ReadSeekCloser ex_no_link = None \<and> URL ex_no_link = []"
    by (simp add: ex_no_link_def)
  have u: "URL ex_url_link \<noteq> []"
    by (simp add: ex_url_link_def)
  from Link_capability_check [OF 1 2, of ex_no_link ex_cipher] n
    Link_capability_check [OF 1 2, of ex_url_link ex_cipher] u
  show ?thesis
    by blast
qed

lemma rangeReaderFunc_url:
  assumes "RangeReader remoteLink = None" and "ReadSeekCloser remoteLink = None"
    and "URL remoteLink \<noteq> []"
    and "RequestRangedHttp e args (URL remoteLink) (Header remoteLink) off
           (clampLength remoteFileSize off len) = (Some resp, None)"
  shows "rangeReaderFunc e remoteLink remoteFileSize args off len =
     (if off = 0 \<and> clampLength remoteFileSize off len = - 1 \<or> StatusCode resp = 206
      then Inr (Body resp)
      else if StatusCode resp = 200
      then GetRangedHttpReader e (Body resp) off (clampLength remoteFileSize off len)
      else Inr (Body resp))"
  using assms by (auto simp: rangeReaderFunc_def Let_def split: sum.splits)

lemma int64_le: "0 \<le> x \<Longrightarrow> int64 x \<le> x"
proof -
  assume "0 \<le> x"
  then have "(x + 2 ^ 63) mod 2 ^ 64 \<le> x + 2 ^ 63"
    by (intro zmod_le_nonneg_dividend) simp
  then show ?thesis
    by (simp add: int64_def)
qed

lemma spec_GetRangedHttpReader_clamped:
  assumes "0 \<le> off" and "0 \<le> len" and "int (length body) \<le> remoteFileSize"
  shows "spec_GetRangedHttpReader body off (clampLength remoteFileSize off len)
           = Inr (take (nat len) (drop (nat off) body))"
proof (cases "int64 (off + len) \<ge> remoteFileSize")
  case True
  from assms(1,2) have "int64 (off + len) \<le> off + len"
    by (intro int64_le) simp
  with True assms(3) have "int (length body) \<le> off + len"
    by simp
  with assms(1,2) have "length (drop (nat off) body) \<le> nat len"
    by simp
  then have "take (nat len) (drop (nat off) body) = drop (nat off) body"
    by (rule take_all)
  with True assms(2) show ?thesis
    by (simp add: spec_GetRangedHttpReader_def clampLength_def)
next
  case False
  with assms(2) show ?thesis
    by (simp add: spec_GetRangedHttpReader_def clampLength_def)
qed

text \<open>
  C3. In the URL branch, for an offset \<open>off \<ge> 0\<close> and a finite length \<open>len \<ge> 0\<close>,
  when the request does not error, the response has status 200, the request is not for
  the whole stream and the body is the remote file (it is no longer than the size the
  remote reports), the adapter returns what the range synthesis returns on the body, the
  offset and the length (lines 277 to 281); with the range synthesis of the
  specification this is a reader, not an error, and it yields exactly the bytes
  \<open>[off, off + len)\<close> of the body: the first \<open>off\<close> bytes are discarded and the rest is
  truncated at \<open>len\<close>, also where the range reaches the end of the file and is read
  "to the end".
\<close>

theorem rangeReaderFunc_200_range:
  assumes "RangeReader remoteLink = None" and "ReadSeekCloser remoteLink = None"
    and "URL remoteLink \<noteq> []"
    and "RequestRangedHttp e args (URL remoteLink) (Header remoteLink) off
           (clampLength remoteFileSize off len) = (Some resp, None)"
    and "StatusCode resp = 200"
    and "0 \<le> off" and "0 \<le> len"
    and "\<not> (off = 0 \<and> clampLength remoteFileSize off len = - 1)"
    and "int (length (Body resp)) \<le> remoteFileSize"
  shows
    "rangeReaderFunc e remoteLink remoteFileSize args off len
       = GetRangedHttpReader e (Body resp) off (clampLength remoteFileSize off len)
     \<and> rangeReaderFunc (e\<lparr>GetRangedHttpReader := spec_GetRangedHttpReader\<rparr>)
         remoteLink remoteFileSize args off len
       = Inr (take (nat len) (drop (nat off) (Body resp)))"
proof
  show "rangeReaderFunc e remoteLink remoteFileSize args off len
       = GetRangedHttpReader e (Body resp) off (clampLength remoteFileSize off len)"
    using assms(5,8) by (auto simp: rangeReaderFunc_url [OF assms(1-4)])
next
  let ?e = "e\<lparr>GetRangedHttpReader := spec_GetRangedHttpReader\<rparr>"
  have q: "RequestRangedHttp ?e args (URL remoteLink) (Header remoteLink) off
           (clampLength remoteFileSize off len) = (Some resp, None)"
    using assms(4) by simp
  have "rangeReaderFunc ?e remoteLink remoteFileSize args off len
       = spec_GetRangedHttpReader (Body resp) off (clampLength remoteFileSize off len)"
    using assms(5,8) by (auto simp: rangeReaderFunc_url [OF assms(1-3) q])
  then show "rangeReaderFunc ?e remoteLink remoteFileSize args off len
       = Inr (take (nat len) (drop (nat off) (Body resp)))"
    by (simp add: spec_GetRangedHttpReader_clamped [OF assms(6,7,9)])
qed

theorem rangeReaderFunc_200_range_witness:
  "rangeReaderFunc (ex_env ex_url_link 200) ex_url_link 20 () 5 5 = Inr [5, 6, 7, 8, 9]
   \<and> rangeReaderFunc (ex_env ex_url_link 200) ex_url_link 20 () 15 10
       = Inr [15, 16, 17, 18, 19]"
proof -
  let ?e = "ex_env ex_url_link 200"
  let ?r = "\<lparr>StatusCode = 200, Body = ex_body\<rparr>"
  have l: "RangeReader ex_url_link = None" "ReadSeekCloser ex_url_link = None"
    "URL ex_url_link \<noteq> []"
    by (simp_all add: ex_url_link_def)
  have q: "RequestRangedHttp ?e () (URL ex_url_link) (Header ex_url_link) m n = (Some ?r, None)"
    for m n
    by (simp add: ex_env_def)
  have st: "StatusCode ?r = 200"
    and p: "(0::int) \<le> 5" "(0::int) \<le> 15" "(0::int) \<le> 10"
    and w: "\<not> ((5::int) = 0 \<and> clampLength 20 5 5 = - 1)"
           "\<not> ((15::int) = 0 \<and> clampLength 20 15 10 = - 1)"
    and b: "int (length (Body ?r)) \<le> 20"
    by (simp_all add: ex_body_def)
  have g: "?e\<lparr>GetRangedHttpReader := spec_GetRangedHttpReader\<rparr> = ?e"
    by (simp add: ex_env_def)
  from rangeReaderFunc_200_range [OF l q st p(1) p(1) w(1) b]
  have 1: "rangeReaderFunc ?e ex_url_link 20 () 5 5 = Inr (take (nat 5) (drop (nat 5) (Body ?r)))"
    unfolding g by (rule conjunct2)
  from rangeReaderFunc_200_range [OF l q st p(2) p(3) w(2) b]
  have 2: "rangeReaderFunc ?e ex_url_link 20 () 15 10 = Inr (take (nat 10) (drop (nat 15) (Body ?r)))"
    unfolding g by (rule conjunct2)
  show ?thesis
    unfolding 1 2 by (simp add: ex_body_def)
qed

text \<open>
  C4, as amended. In the URL branch, when the request itself does not error and the
  status is neither 206 nor 200, the adapter returns the response body as the reader,
  without error. With a request that does not error, an error leaves the URL branch only
  from the range synthesis of the status 200 path.
\<close>

theorem rangeReaderFunc_other_status:
  assumes "RangeReader remoteLink = None" and "ReadSeekCloser remoteLink = None"
    and "URL remoteLink \<noteq> []"
    and "RequestRangedHttp e args (URL remoteLink) (Header remoteLink) off
           (clampLength remoteFileSize off len) = (Some resp, None)"
  shows
    "(StatusCode resp \<noteq> 206 \<and> StatusCode resp \<noteq> 200 \<longrightarrow>
        rangeReaderFunc e remoteLink remoteFileSize args off len = Inr (Body resp))
     \<and> (\<forall>err. rangeReaderFunc e remoteLink remoteFileSize args off len = Inl err \<longrightarrow>
          StatusCode resp = 200
          \<and> \<not> (off = 0 \<and> clampLength remoteFileSize off len = - 1)
          \<and> GetRangedHttpReader e (Body resp) off (clampLength remoteFileSize off len) = Inl err)"
  by (auto simp: rangeReaderFunc_url [OF assms] split: if_splits)

theorem rangeReaderFunc_other_status_witness:
  "rangeReaderFunc (ex_env ex_url_link 500) ex_url_link 10 () 5 2 = Inr ex_body"
proof -
  let ?e = "ex_env ex_url_link 500"
  have l: "RangeReader ex_url_link = None" "ReadSeekCloser ex_url_link = None"
    "URL ex_url_link \<noteq> []"
    by (simp_all add: ex_url_link_def)
  have q: "RequestRangedHttp ?e () (URL ex_url_link) (Header ex_url_link) 5 (clampLength 10 5 2)
             = (Some \<lparr>StatusCode = 500, Body = ex_body\<rparr>, None)"
    by (simp add: ex_env_def)
  from rangeReaderFunc_other_status [OF l q] show ?thesis
    by simp
qed

text \<open>
  The claim as it was stated fails at any such status: at 204, with a request that did not
  error, the result is the reader over the response body, not an error.
\<close>

theorem rangeReaderFunc_other_status_counterexample:
  "RequestRangedHttp (ex_env ex_url_link 204) () (URL ex_url_link) (Header ex_url_link) 5
       (clampLength 10 5 2) = (Some \<lparr>StatusCode = 204, Body = ex_body\<rparr>, None)
   \<and> rangeReaderFunc (ex_env ex_url_link 204) ex_url_link 10 () 5 2 = Inr ex_body"
  by (simp add: rangeReaderFunc_def clampLength_def int64_def ex_env_def ex_url_link_def)

subsection \<open>Put\<close>

lemma Put_path_error:
  "getActualPathForRemote e (GetPath dstDir) True = Inl err \<Longrightarrow>
     Put e c s dstDir stream = (Some (ConvertPathFailed err), s, [])"
  by (simp add: Put_def)

lemma Put_encrypt_error:
  "getActualPathForRemote e (GetPath dstDir) True = Inr dir \<Longrightarrow>
   EncryptData c (GetReadCloser stream) = Inl err \<Longrightarrow>
     Put e c s dstDir stream = (Some (EncryptDataFailed err), s, [])"
  by (simp add: Put_def)

lemma Put_handoff:
  "getActualPathForRemote e (GetPath dstDir) True = Inr dir \<Longrightarrow>
   EncryptData c (GetReadCloser stream) = Inr wrappedIn \<Longrightarrow>
     Put e c s dstDir stream =
       (fst (opPut e s dir (streamOut c stream wrappedIn)),
        snd (opPut e s dir (streamOut c stream wrappedIn)),
        [(dir, streamOut c stream wrappedIn)])"
  by (simp add: Put_def split: prod.splits)

text \<open>
  C5. \<open>Put\<close> calls the remote's put at most once, and every stream it hands over has
  the encrypted file name of the input stream's name, the encrypted size of its size, the
  reader that the cipher's \<open>EncryptData\<close> returned for the input's content, and the ID,
  path, modification time and directory flag of the input stream. When the path converts
  and \<open>EncryptData\<close> succeeds, the call is made, in the converted directory, and its
  outcome is the outcome of \<open>Put\<close>.
\<close>

theorem Put_hands_over_ciphertext_object:
  "length (snd (snd (Put e c s dstDir stream))) \<le> 1
   \<and> (\<forall>(dir, out) \<in> set (snd (snd (Put e c s dstDir stream))).
        getActualPathForRemote e (GetPath dstDir) True = Inr dir
        \<and> Name (Obj out) = EncryptFileName c (GetName stream)
        \<and> Size (Obj out) = EncryptedSize c (GetSize stream)
        \<and> EncryptData c (GetReadCloser stream) = Inr (ReadCloser out)
        \<and> ID (Obj out) = GetID stream
        \<and> Path (Obj out) = GetPath stream
        \<and> Modified (Obj out) = ModTime stream
        \<and> IsFolder (Obj out) = IsDir stream)
   \<and> (\<forall>dir wrappedIn.
        getActualPathForRemote e (GetPath dstDir) True = Inr dir
        \<and> EncryptData c (GetReadCloser stream) = Inr wrappedIn \<longrightarrow>
        (\<exists>out. snd (snd (Put e c s dstDir stream)) = [(dir, out)]
           \<and> ReadCloser out = wrappedIn
           \<and> (fst (Put e c s dstDir stream), fst (snd (Put e c s dstDir stream)))
               = opPut e s dir out))"
proof (cases "getActualPathForRemote e (GetPath dstDir) True")
  case (Inl err)
  then show ?thesis
    by (simp add: Put_path_error)
next
  case dir: (Inr dir)
  show ?thesis
  proof (cases "EncryptData c (GetReadCloser stream)")
    case (Inl err)
    with dir show ?thesis
      by (simp add: Put_encrypt_error)
  next
    case w: (Inr wrappedIn)
    let ?out = "streamOut c stream wrappedIn"
    have P: "Put e c s dstDir stream = (fst (opPut e s dir ?out), snd (opPut e s dir ?out), [(dir, ?out)])"
      by (rule Put_handoff [OF dir w])
    have calls: "snd (snd (Put e c s dstDir stream)) = [(dir, ?out)]"
      by (simp add: P)
    have res: "(fst (Put e c s dstDir stream), fst (snd (Put e c s dstDir stream))) = opPut e s dir ?out"
      by (simp add: P)
    have 1: "length (snd (snd (Put e c s dstDir stream))) \<le> 1"
      by (simp add: calls)
    have 2: "\<forall>(dir, out) \<in> set (snd (snd (Put e c s dstDir stream))).
        getActualPathForRemote e (GetPath dstDir) True = Inr dir
        \<and> Name (Obj out) = EncryptFileName c (GetName stream)
        \<and> Size (Obj out) = EncryptedSize c (GetSize stream)
        \<and> EncryptData c (GetReadCloser stream) = Inr (ReadCloser out)
        \<and> ID (Obj out) = GetID stream
        \<and> Path (Obj out) = GetPath stream
        \<and> Modified (Obj out) = ModTime stream
        \<and> IsFolder (Obj out) = IsDir stream"
      unfolding calls by (simp add: dir w streamOut_def)
    have 3: "\<forall>dir wrappedIn.
        getActualPathForRemote e (GetPath dstDir) True = Inr dir
        \<and> EncryptData c (GetReadCloser stream) = Inr wrappedIn \<longrightarrow>
        (\<exists>out. snd (snd (Put e c s dstDir stream)) = [(dir, out)]
           \<and> ReadCloser out = wrappedIn
           \<and> (fst (Put e c s dstDir stream), fst (snd (Put e c s dstDir stream)))
               = opPut e s dir out)"
    proof (intro allI impI)
      fix dir' wrappedIn'
      assume "getActualPathForRemote e (GetPath dstDir) True = Inr dir'
        \<and> EncryptData c (GetReadCloser stream) = Inr wrappedIn'"
      with dir w have eq: "dir' = dir" "wrappedIn' = wrappedIn"
        by simp_all
      have "ReadCloser ?out = wrappedIn"
        by (simp add: streamOut_def)
      with calls res show "\<exists>out. snd (snd (Put e c s dstDir stream)) = [(dir', out)]
           \<and> ReadCloser out = wrappedIn'
           \<and> (fst (Put e c s dstDir stream), fst (snd (Put e c s dstDir stream)))
               = opPut e s dir' out"
        unfolding eq by blast
    qed
    from 1 2 3 show ?thesis
      by (intro conjI)
  qed
qed

theorem Put_hands_over_ciphertext_object_witness:
  "\<exists>out.
     snd (snd (Put (ex_env ex_url_link 200) ex_cipher ex_remote (ex_robj ''docs'' 0 True) ex_stream))
       = [(''/enc/d_'', out)]
     \<and> Name (Obj out) = ''f_a.txt'' \<and> Size (Obj out) = 35
     \<and> ReadCloser out = [3, 2, 1] \<and> ID (Obj out) = ''id7''"
proof -
  let ?e = "ex_env ex_url_link 200"
  let ?P = "Put ?e ex_cipher ex_remote (ex_robj ''docs'' 0 True) ex_stream"
  have 1: "getActualPathForRemote ?e (GetPath (ex_robj ''docs'' 0 True)) True = Inr ''/enc/d_''"
    by (simp add: ex_env_def ex_remote_path_def ex_robj_def)
  have 2: "EncryptData ex_cipher (GetReadCloser ex_stream) = Inr [3, 2, 1]"
    by (simp add: ex_cipher_def ex_stream_def)
  have 3: "EncryptFileName ex_cipher (GetName ex_stream) = ''f_a.txt''"
    "EncryptedSize ex_cipher (GetSize ex_stream) = 35" "GetID ex_stream = ''id7''"
    by (simp_all add: ex_cipher_def ex_stream_def)
  note t = Put_hands_over_ciphertext_object [of ?e ex_cipher ex_remote "ex_robj ''docs'' 0 True" ex_stream]
  from t have "getActualPathForRemote ?e (GetPath (ex_robj ''docs'' 0 True)) True = Inr ''/enc/d_''
        \<and> EncryptData ex_cipher (GetReadCloser ex_stream) = Inr [3, 2, 1] \<longrightarrow>
        (\<exists>out. snd (snd ?P) = [(''/enc/d_'', out)] \<and> ReadCloser out = [3, 2, 1]
           \<and> (fst ?P, fst (snd ?P)) = opPut ?e ex_remote ''/enc/d_'' out)"
    by (elim conjE allE)
  with 1 2 obtain out where
    s: "snd (snd ?P) = [(''/enc/d_'', out)]" "ReadCloser out = [3, 2, 1]"
    by blast
  from t have "\<forall>(dir, out) \<in> set (snd (snd ?P)).
        getActualPathForRemote ?e (GetPath (ex_robj ''docs'' 0 True)) True = Inr dir
        \<and> Name (Obj out) = EncryptFileName ex_cipher (GetName ex_stream)
        \<and> Size (Obj out) = EncryptedSize ex_cipher (GetSize ex_stream)
        \<and> EncryptData ex_cipher (GetReadCloser ex_stream) = Inr (ReadCloser out)
        \<and> ID (Obj out) = GetID ex_stream
        \<and> Path (Obj out) = GetPath ex_stream
        \<and> Modified (Obj out) = ModTime ex_stream
        \<and> IsFolder (Obj out) = IsDir ex_stream"
    by (elim conjE)
  then have "Name (Obj out) = EncryptFileName ex_cipher (GetName ex_stream)
        \<and> Size (Obj out) = EncryptedSize ex_cipher (GetSize ex_stream)
        \<and> ID (Obj out) = GetID ex_stream"
    unfolding s by simp
  with s 3 show ?thesis
    by simp
qed


end
